theory Spec2Isabelle
  imports Main
begin

section \<open>Data model\<close>

text \<open>
  A cell of an extracted table is a Python \<open>str\<close> or \<open>None\<close>; a row is a list of
  cells and a table is a list of rows, exactly what \<open>page.extract_table()\<close> hands back.
\<close>

type_synonym cell = "string option"
type_synonym row = "cell list"
type_synonym table = "row list"

text \<open>
  Exceptions are values. Every constructor stands for a subclass of Python's
  \<open>Exception\<close>, so each of them is caught by \<open>except Exception\<close>.
  \<open>LibraryError\<close> covers whatever else the PDF reader, the operating system or the
  spreadsheet engine may raise.
\<close>

datatype exn = ValueError | TypeError | FileNotFoundError | LibraryError string

text \<open>
  A column label of a data frame: a header cell, or the ordinal that the frame generates
  when no header is given (\<open>columns=None\<close>).
\<close>

datatype label = Name cell | Ordinal nat

text \<open>
  The logger. Each call of \<open>self.logger.info/warning/error\<close> appends one record; the
  message constructors stand for the six format strings of the class.
\<close>

datatype level = INFO | WARNING | ERROR

datatype message =
    CouldNotExtract exn
  | PdfNotFound string
  | NoValidTable
  | ColumnNotConverted label exn
  | ConvertedTo string
  | ConversionFailed exn

type_synonym logger = "(level \<times> message) list"

text \<open>
  A page is modelled by what its \<open>extract_table()\<close> does: it raises, or it returns a
  table or \<open>None\<close>.
\<close>

datatype page = Raises exn | Yields "table option"

text \<open>
  A value inside a data frame is the original object (\<open>Obj\<close>, a cell) or a number.
  The numeric type is a parameter: the development never computes with numbers.
\<close>

datatype 'n entry = Obj cell | Number 'n

text \<open>
  A data frame, column-major as the library stores it: the column labels, the number of
  rows (the length of its index) and one series per label.
\<close>

record 'n frame =
  columns :: "label list"
  nrows :: nat
  series :: "'n entry list list"

text \<open>
  The world has two components. \<open>files\<close> maps paths to nodes and holds every file and
  directory except the log file; \<open>logger\<close> holds the records logged so far, which are
  the content of the log file (see \<open>filesystem\<close> below for the two put together).
  Console output (\<open>print\<close>) is not part of the model.
\<close>

datatype 'n node = Dir | Pdf "page list" | Sheet "'n frame" | Other

type_synonym 'n fs = "string \<Rightarrow> 'n node option"

record 'n world =
  files :: "'n fs"
  logger :: logger

text \<open>
  What the program takes from its environment and does not define itself:
  \<^item> \<open>parse_number\<close>: the scalar parser behind \<open>pd.to_numeric\<close> (which cells count as
    numbers, and their values);
  \<^item> \<open>os_makedirs\<close>: what the operating system does on \<open>os.makedirs(name, exist_ok=True)\<close>
    for a non-empty \<open>name\<close>: an error or not, and the file system it leaves;
  \<^item> \<open>excel_engine\<close>: the verdict of the spreadsheet writer on a path (missing engine,
    unsupported extension, permissions): \<open>None\<close> when the write goes through, otherwise
    the error and the file system left behind.
  Every theorem below holds for all such environments.
\<close>

record 'n env =
  parse_number :: "cell \<Rightarrow> 'n option"
  os_makedirs :: "string \<Rightarrow> 'n fs \<Rightarrow> exn option \<times> 'n fs"
  excel_engine :: "string \<Rightarrow> 'n frame \<Rightarrow> 'n fs \<Rightarrow> (exn \<times> 'n fs) option"

section \<open>Page extraction (\<open>extract_table_from_page\<close>)\<close>

text \<open>
  \<^verbatim>\<open>try: table = page.extract_table(); return table if table and len(table) > 0 else None\<close>
  \<^verbatim>\<open>except Exception as e: self.logger.warning(...); return None\<close>
\<close>

fun extract_table_from_page :: "page \<Rightarrow> logger \<Rightarrow> table option \<times> logger" where
  "extract_table_from_page (Yields None) lg = (None, lg)"
| "extract_table_from_page (Yields (Some t)) lg =
     (if t \<noteq> [] \<and> length t > 0 then Some t else None, lg)"
| "extract_table_from_page (Raises e) lg = (None, lg @ [(WARNING, CouldNotExtract e)])"

section \<open>The page loop of \<open>convert_pdf_to_excel\<close>\<close>

text \<open>
  The loop over \<open>pdf.pages\<close> with its accumulator \<open>all_tables\<close> (initially \<open>[]\<close>):
  \<open>if table:\<close> tests that the fragment is not \<open>None\<close> and not empty,
  \<open>if not all_tables:\<close> that nothing is accumulated yet, and \<open>table[1:]\<close> is \<open>tl\<close>.
  Every call of \<open>extract_table()\<close> builds a fresh list, so \<open>all_tables = table\<close>
  followed by \<open>all_tables.extend(...)\<close> aliases no later fragment.
\<close>

fun process_pages :: "page list \<Rightarrow> table \<Rightarrow> logger \<Rightarrow> table \<times> logger" where
  "process_pages [] all_tables lg = (all_tables, lg)"
| "process_pages (page # pages) all_tables lg =
     (case extract_table_from_page page lg of
        (None, lg') \<Rightarrow> process_pages pages all_tables lg'
      | (Some t, lg') \<Rightarrow>
          if t = [] then process_pages pages all_tables lg'
          else if all_tables = [] then process_pages pages t lg'
          else process_pages pages (all_tables @ tl t) lg')"

section \<open>Building the data frame\<close>

text \<open>
  \<open>pd.DataFrame(data, columns=...)\<close> on a non-empty list of rows (the only case that
  occurs): the width is the length of the longest row, shorter rows are filled with
  \<open>None\<close>; given column names must be as many as the width, otherwise the constructor
  raises \<open>ValueError\<close>; without names the labels are the ordinals \<open>0, 1, ...\<close>.
  Duplicate names are accepted.
\<close>

definition width :: "table \<Rightarrow> nat" where
  "width data = fold max (map length data) 0"

definition column_of :: "table \<Rightarrow> nat \<Rightarrow> 'n entry list" where
  "column_of data j = map (\<lambda>r. Obj (if j < length r then r ! j else None)) data"

definition DataFrame :: "table \<Rightarrow> row option \<Rightarrow> exn + 'n frame" where
  "DataFrame data names =
     (case names of
        None \<Rightarrow>
          Inr \<lparr>columns = map Ordinal [0..<width data], nrows = length data,
               series = map (column_of data) [0..<width data]\<rparr>
      | Some header \<Rightarrow>
          if length header \<noteq> width data then Inl ValueError
          else Inr \<lparr>columns = map Name header, nrows = length data,
                    series = map (column_of data) [0..<width data]\<rparr>)"

text \<open>
  Lines 73 to 76: \<open>pd.DataFrame(all_tables[1:], columns=all_tables[0] if
  len(all_tables[0]) > 1 else None)\<close>. The call is reached only with at least two rows;
  on an empty list \<open>all_tables[0]\<close> raises \<open>IndexError\<close>, modelled as \<open>LibraryError\<close>.
\<close>

definition header_arg :: "row \<Rightarrow> row option" where
  "header_arg first_row = (if length first_row > 1 then Some first_row else None)"

fun tabulate :: "table \<Rightarrow> exn + 'n frame" where
  "tabulate [] = Inl (LibraryError ''IndexError'')"
| "tabulate (first_row # rest) = DataFrame rest (header_arg first_row)"

section \<open>Numeric coercion\<close>

text \<open>
  \<open>df[col]\<close> is a series when the label occurs once among the columns, and a frame of
  all the columns carrying it when the label is duplicated. The loop below asks only for
  labels of the frame, so a missing label does not occur.
\<close>

datatype 'n selection = Series "'n entry list" | SubFrame "'n entry list list"

definition getitem :: "'n frame \<Rightarrow> label \<Rightarrow> 'n selection" where
  "getitem df col =
     (case filter (\<lambda>(l, s). l = col) (zip (columns df) (series df)) of
        [(l, s)] \<Rightarrow> Series s
      | hits \<Rightarrow> SubFrame (map snd hits))"

text \<open>\<open>df[col] = s\<close> for a label that occurs once: the series under it is replaced.\<close>

definition setitem :: "'n frame \<Rightarrow> label \<Rightarrow> 'n entry list \<Rightarrow> 'n frame" where
  "setitem df col s =
     df\<lparr>series := map (\<lambda>(l, old). if l = col then s else old) (zip (columns df) (series df))\<rparr>"

fun numeric :: "(cell \<Rightarrow> 'n option) \<Rightarrow> 'n entry \<Rightarrow> 'n option" where
  "numeric parse (Obj c) = parse c"
| "numeric parse (Number n) = Some n"

text \<open>
  \<open>pd.to_numeric(arg, errors="ignore")\<close>: an argument of more than one dimension raises
  \<open>TypeError\<close>; on a series, when every value parses the result is the numeric series, and
  when some value does not parse, \<open>errors="ignore"\<close> returns the input and raises nothing.
\<close>

definition to_numeric :: "(cell \<Rightarrow> 'n option) \<Rightarrow> 'n selection \<Rightarrow> exn + 'n entry list" where
  "to_numeric parse arg =
     (case arg of
        SubFrame cs \<Rightarrow> Inl TypeError
      | Series s \<Rightarrow>
          (case those (map (numeric parse) s) of
             Some ns \<Rightarrow> Inr (map Number ns)
           | None \<Rightarrow> Inr s))"

text \<open>
  Lines 79 to 83: the loop over \<open>df.columns\<close>. Only \<open>ValueError\<close> is handled inside
  the loop (a warning, then the next column); any other exception leaves the loop.
\<close>

fun coerce_columns ::
  "(cell \<Rightarrow> 'n option) \<Rightarrow> label list \<Rightarrow> 'n frame \<Rightarrow> logger \<Rightarrow> (exn + 'n frame) \<times> logger" where
  "coerce_columns parse [] df lg = (Inr df, lg)"
| "coerce_columns parse (col # cols) df lg =
     (case to_numeric parse (getitem df col) of
        Inr s \<Rightarrow> coerce_columns parse cols (setitem df col s) lg
      | Inl e \<Rightarrow>
          if e = ValueError
          then coerce_columns parse cols df (lg @ [(WARNING, ColumnNotConverted col e)])
          else (Inl e, lg))"

section \<open>Saving\<close>

text \<open>
  \<open>os.path.dirname\<close> (POSIX): everything up to and including the last slash, with the
  trailing slashes removed unless the head consists of slashes only.
\<close>

definition dirname :: "string \<Rightarrow> string" where
  "dirname p =
     (let head = rev (dropWhile (\<lambda>c. c \<noteq> CHR ''/'') (rev p)) in
      if head \<noteq> [] \<and> \<not> list_all (\<lambda>c. c = CHR ''/'') head
      then rev (dropWhile (\<lambda>c. c = CHR ''/'') (rev head))
      else head)"

text \<open>
  \<open>os.makedirs(name, exist_ok=True)\<close>: creating the empty path raises
  \<open>FileNotFoundError\<close>; every other outcome is the operating system's.
\<close>

definition makedirs :: "'n env \<Rightarrow> string \<Rightarrow> 'n fs \<Rightarrow> exn option \<times> 'n fs" where
  "makedirs env name fs =
     (if name = [] then (Some FileNotFoundError, fs) else os_makedirs env name fs)"

text \<open>\<open>df.to_excel(excel_path, index=False)\<close>: the frame becomes the file at the path.\<close>

definition to_excel :: "'n env \<Rightarrow> 'n frame \<Rightarrow> string \<Rightarrow> 'n fs \<Rightarrow> exn option \<times> 'n fs" where
  "to_excel env df path fs =
     (case excel_engine env path df fs of
        Some (e, fs') \<Rightarrow> (Some e, fs')
      | None \<Rightarrow> (None, fs(path \<mapsto> Sheet df)))"

text \<open>Lines 86 to 89.\<close>

definition save ::
  "'n env \<Rightarrow> 'n frame \<Rightarrow> string \<Rightarrow> 'n world \<Rightarrow> (exn + bool) \<times> 'n world" where
  "save env df excel_path w =
     (case makedirs env (dirname excel_path) (files w) of
        (Some e, fs') \<Rightarrow> (Inl e, w\<lparr>files := fs'\<rparr>)
      | (None, fs') \<Rightarrow>
          (case to_excel env df excel_path fs' of
             (Some e, fs'') \<Rightarrow> (Inl e, w\<lparr>files := fs''\<rparr>)
           | (None, fs'') \<Rightarrow>
               (Inr True,
                \<lparr>files = fs'', logger = logger w @ [(INFO, ConvertedTo excel_path)]\<rparr>)))"

section \<open>\<open>convert_pdf_to_excel\<close>\<close>

text \<open>
  \<open>pdfplumber.open\<close> together with \<open>pdf.pages\<close>: the pages of a PDF file; anything
  else at the path makes the reader raise.
\<close>

fun pdfplumber_open :: "'n node \<Rightarrow> exn + page list" where
  "pdfplumber_open (Pdf pages) = Inr pages"
| "pdfplumber_open Dir = Inl (LibraryError ''IsADirectoryError'')"
| "pdfplumber_open (Sheet df) = Inl (LibraryError ''PDFSyntaxError'')"
| "pdfplumber_open Other = Inl (LibraryError ''PDFSyntaxError'')"

text \<open>Lines 68 to 89: what follows the page loop.\<close>

definition finish ::
  "'n env \<Rightarrow> string \<Rightarrow> table \<Rightarrow> 'n world \<Rightarrow> (exn + bool) \<times> 'n world" where
  "finish env excel_path all_tables w =
     (if all_tables = [] \<or> length all_tables \<le> 1
      then (Inr False, w\<lparr>logger := logger w @ [(WARNING, NoValidTable)]\<rparr>)
      else
        (case tabulate all_tables of
           Inl e \<Rightarrow> (Inl e, w)
         | Inr df \<Rightarrow>
             (case coerce_columns (parse_number env) (columns df) df (logger w) of
                (Inl e, lg) \<Rightarrow> (Inl e, w\<lparr>logger := lg\<rparr>)
              | (Inr df', lg) \<Rightarrow> save env df' excel_path (w\<lparr>logger := lg\<rparr>))))"

text \<open>
  The body of the \<open>try\<close> block: \<open>Inr b\<close> is \<open>return b\<close>, \<open>Inl e\<close> is the exception
  \<open>e\<close> leaving the block. The world is returned in both cases.
\<close>

definition convert_body ::
  "'n env \<Rightarrow> string \<Rightarrow> string \<Rightarrow> 'n world \<Rightarrow> (exn + bool) \<times> 'n world" where
  "convert_body env pdf_path excel_path w =
     (case files w pdf_path of
        None \<Rightarrow> (Inr False, w\<lparr>logger := logger w @ [(ERROR, PdfNotFound pdf_path)]\<rparr>)
      | Some node \<Rightarrow>
          (case pdfplumber_open node of
             Inl e \<Rightarrow> (Inl e, w)
           | Inr pages \<Rightarrow>
               (case process_pages pages [] (logger w) of
                  (all_tables, lg) \<Rightarrow> finish env excel_path all_tables (w\<lparr>logger := lg\<rparr>))))"

text \<open>The whole method, with its \<open>except Exception\<close> handler.\<close>

definition convert_pdf_to_excel ::
  "'n env \<Rightarrow> string \<Rightarrow> string \<Rightarrow> 'n world \<Rightarrow> bool \<times> 'n world" where
  "convert_pdf_to_excel env pdf_path excel_path w =
     (case convert_body env pdf_path excel_path w of
        (Inr b, w') \<Rightarrow> (b, w')
      | (Inl e, w') \<Rightarrow> (False, w'\<lparr>logger := logger w' @ [(ERROR, ConversionFailed e)]\<rparr>))"

section \<open>The log file\<close>

text \<open>
  Lines 15 to 22: the logger is configured with \<open>logging.FileHandler("pdf_conversion.log")\<close>,
  so every record is appended to that file in the working directory. The file system as
  the operating system has it is therefore \<open>files\<close> together with the log file, whose
  content is the list of records.
\<close>

definition log_file :: string where
  "log_file = ''pdf_conversion.log''"

datatype 'n content = LogRecords logger | Node "'n node"

definition filesystem :: "'n world \<Rightarrow> string \<Rightarrow> 'n content option" where
  "filesystem w p =
     (if p = log_file then Some (LogRecords (logger w)) else map_option Node (files w p))"

section \<open>The stitching rule in the specification's words\<close>

text \<open>
  The fragment a page contributes (what \<open>extract_table_from_page\<close> returns for it),
  the fragments of a document in page order, and the rule the specification gives for
  joining them: the first fragment whole, every later one without its first row.
\<close>

definition fragment :: "page \<Rightarrow> table option" where
  "fragment p = fst (extract_table_from_page p [])"

definition fragments :: "page list \<Rightarrow> table list" where
  "fragments pages = List.map_filter fragment pages"

fun stitched :: "table list \<Rightarrow> table" where
  "stitched [] = []"
| "stitched (t # ts) = t @ concat (map tl ts)"

section \<open>Sample inputs\<close>

text \<open>
  A concrete environment for the examples: numbers are the non-empty strings of decimal
  digits, directories are created without error and every write goes through.
\<close>

definition parse_digits :: "cell \<Rightarrow> nat option" where
  "parse_digits c =
     (case c of
        None \<Rightarrow> None
      | Some s \<Rightarrow>
          if s \<noteq> [] \<and> list_all (\<lambda>d. 48 \<le> (of_char d :: nat) \<and> (of_char d :: nat) \<le> 57) s
          then Some (foldl (\<lambda>a d. 10 * a + (of_char d - 48)) 0 s)
          else None)"

definition env0 :: "nat env" where
  "env0 = \<lparr>parse_number = parse_digits,
           os_makedirs = (\<lambda>name fs. (None, fs(name \<mapsto> Dir))),
           excel_engine = (\<lambda>path df fs. None)\<rparr>"

definition sample_table :: table where
  "sample_table =
     [[Some ''id'', Some ''name''], [Some ''1'', Some ''x''], [Some ''2'', Some ''y'']]"

definition sample_pdf :: "page list" where
  "sample_pdf = [Yields (Some sample_table), Raises (LibraryError ''boom''), Yields None,
                 Yields (Some sample_table)]"

definition sample_world :: "nat world" where
  "sample_world = \<lparr>files = [''in/a.pdf'' \<mapsto> Pdf sample_pdf], logger = []\<rparr>"

definition plain_world :: "nat world" where
  "plain_world = \<lparr>files = [''in/a.pdf'' \<mapsto> Pdf [Yields (Some sample_table)]], logger = []\<rparr>"

definition empty_world :: "nat world" where
  "empty_world =
     \<lparr>files = [''in/e.pdf'' \<mapsto> Pdf [Yields None, Raises (LibraryError ''boom''), Yields (Some [])]],
      logger = []\<rparr>"

definition narrow_table :: table where
  "narrow_table = [[Some ''title''], [Some ''1'', Some ''2''], [Some ''3'', Some ''4'']]"

definition dup_world :: "nat world" where
  "dup_world =
     \<lparr>files = [''in/d.pdf'' \<mapsto> Pdf [Yields (Some [[Some ''a'', Some ''a''], [Some ''1'', Some ''2'']])]],
      logger = []\<rparr>"

definition twice_world :: "nat world" where
  "twice_world =
     \<lparr>files = [''in/t.pdf'' \<mapsto> Pdf (replicate 2 (Yields (Some sample_table)))], logger = []\<rparr>"

section \<open>Shape of a frame\<close>

text \<open>
  A frame is well shaped when it has one series per label and every series has as many
  values as the frame has rows.
\<close>

definition frame_ok :: "'n frame \<Rightarrow> bool" where
  "frame_ok df \<longleftrightarrow>
     length (series df) = length (columns df) \<and> list_all (\<lambda>s. length s = nrows df) (series df)"

text \<open>What \<open>to_numeric\<close> makes of one series: all numbers, or the series as it was.\<close>

definition coerced :: "(cell \<Rightarrow> 'n option) \<Rightarrow> 'n entry list \<Rightarrow> 'n entry list" where
  "coerced parse s =
     (case those (map (numeric parse) s) of Some ns \<Rightarrow> map Number ns | None \<Rightarrow> s)"

section \<open>Page extraction and stitching\<close>

lemma extract_fst: "fst (extract_table_from_page p lg) = fragment p"
  by (cases "(p, lg)" rule: extract_table_from_page.cases) (auto simp: fragment_def)

lemma fragment_nonempty: "fragment p = Some t \<Longrightarrow> t \<noteq> []"
  by (cases "(p, []::logger)" rule: extract_table_from_page.cases)
     (auto simp: fragment_def split: if_splits)

lemma fragments_Cons:
  "fragments (p # ps) = (case fragment p of None \<Rightarrow> fragments ps | Some t \<Rightarrow> t # fragments ps)"
  by (simp add: fragments_def split: option.split)

lemma fragments_append: "fragments (ps @ qs) = fragments ps @ fragments qs"
  by (induction ps) (simp_all add: fragments_Cons split: option.split, simp add: fragments_def)

text \<open>
  The loop invariant: with a non-empty accumulator every further fragment loses its first
  row; with an empty one the fragments are stitched from scratch. A fragment is never
  empty, so the accumulator is non-empty from the first contribution on.
\<close>

lemma process_pages_acc:
  "fst (process_pages pages acc lg) =
     (if acc = [] then stitched (fragments pages) else acc @ concat (map tl (fragments pages)))"
proof (induction pages arbitrary: acc lg)
  case Nil
  then show ?case by (simp add: fragments_def)
next
  case (Cons p ps)
  obtain r lg' where e: "extract_table_from_page p lg = (r, lg')"
    by (cases "extract_table_from_page p lg")
  then have r: "r = fragment p" using extract_fst[of p lg] by simp
  show ?case
  proof (cases r)
    case None
    then have f: "fragment p = None" using r by simp
    show ?thesis using e None Cons.IH by (simp add: fragments_Cons f)
  next
    case (Some t)
    then have f: "fragment p = Some t" using r by simp
    then have "t \<noteq> []" by (rule fragment_nonempty)
    then show ?thesis using e Some Cons.IH by (simp add: fragments_Cons f)
  qed
qed

text \<open>
  Claim C1. For every sequence of pages, the table accumulated by the page loop of
  \<open>convert_pdf_to_excel\<close> is the first non-absent fragment taken whole, followed in
  page order by every later non-absent fragment without its first row, whatever that row
  contains.
\<close>

theorem stitching_rule: "fst (process_pages pages [] lg) = stitched (fragments pages)"
  by (simp add: process_pages_acc)

theorem stitching_rule_witness:
  "fst (process_pages sample_pdf [] []) =
     [[Some ''id'', Some ''name''], [Some ''1'', Some ''x''], [Some ''2'', Some ''y''],
      [Some ''1'', Some ''x''], [Some ''2'', Some ''y'']]"
  using stitching_rule [of sample_pdf "[]"]
  by (simp add: sample_pdf_def sample_table_def fragments_def fragment_def)

text \<open>
  Claim C6. \<open>extract_table_from_page\<close> returns the extracted table exactly when the
  extraction returns a table with at least one row; it returns \<open>None\<close>, with the log
  untouched, when no table is found or the table is empty; when the extraction raises, it
  returns \<open>None\<close> and logs one warning. It always returns, and a page that raises
  changes nothing in what the loop accumulates from the other pages.
\<close>

theorem extract_table_from_page_outcomes:
  "(fst (extract_table_from_page p lg) = Some t \<longleftrightarrow> p = Yields (Some t) \<and> 1 \<le> length t)
   \<and> (p = Yields None \<or> p = Yields (Some []) \<longrightarrow> extract_table_from_page p lg = (None, lg))
   \<and> (p = Raises e \<longrightarrow> extract_table_from_page p lg = (None, lg @ [(WARNING, CouldNotExtract e)]))
   \<and> (fst (extract_table_from_page p lg) = Some t \<longrightarrow> snd (extract_table_from_page p lg) = lg)
   \<and> fst (process_pages (ps @ Raises e # qs) acc lg) = fst (process_pages (ps @ qs) acc lg)"
proof -
  have a: "fst (extract_table_from_page p lg) = Some t \<longleftrightarrow> p = Yields (Some t) \<and> 1 \<le> length t"
    by (cases "(p, lg)" rule: extract_table_from_page.cases) (auto simp: Suc_le_eq)
  have b: "fst (extract_table_from_page p lg) = Some t \<longrightarrow> snd (extract_table_from_page p lg) = lg"
    by (cases "(p, lg)" rule: extract_table_from_page.cases) (auto split: if_splits)
  have "fragment (Raises e) = None" by (simp add: fragment_def)
  then have "fragments (ps @ Raises e # qs) = fragments (ps @ qs)"
    by (simp add: fragments_append fragments_Cons)
  then have c: "fst (process_pages (ps @ Raises e # qs) acc lg) = fst (process_pages (ps @ qs) acc lg)"
    by (simp add: process_pages_acc)
  show ?thesis using a b c by auto
qed

theorem extract_table_from_page_outcomes_witness:
  "fst (extract_table_from_page (Yields (Some sample_table)) []) = Some sample_table
   \<and> extract_table_from_page (Yields (Some [])) [] = (None, [])
   \<and> extract_table_from_page (Raises TypeError) [] = (None, [(WARNING, CouldNotExtract TypeError)])
   \<and> snd (extract_table_from_page (Yields (Some sample_table)) []) = []
   \<and> fst (process_pages ([Yields (Some sample_table)] @ Raises TypeError # [Yields (Some sample_table)]) [] [])
       = fst (process_pages ([Yields (Some sample_table)] @ [Yields (Some sample_table)]) [] [])"
  using extract_table_from_page_outcomes [of "Yields (Some sample_table)" "[]" sample_table TypeError
      "[Yields (Some sample_table)]" "[Yields (Some sample_table)]" "[]"]
    extract_table_from_page_outcomes [of "Yields (Some [])" "[]" sample_table TypeError "[]" "[]" "[]"]
    extract_table_from_page_outcomes [of "Raises TypeError" "[]" sample_table TypeError "[]" "[]" "[]"]
  by (simp add: sample_table_def)

section \<open>Control flow of \<open>convert_pdf_to_excel\<close>\<close>

lemma pdfplumber_open_Inr: "pdfplumber_open node = Inr pages \<longleftrightarrow> node = Pdf pages"
  by (cases node) auto

lemma convert_body_missing:
  "files w p = None \<Longrightarrow>
   convert_body env p x w = (Inr False, w\<lparr>logger := logger w @ [(ERROR, PdfNotFound p)]\<rparr>)"
  by (simp add: convert_body_def)

lemma convert_body_pdf:
  "files w p = Some (Pdf pages) \<Longrightarrow>
   convert_body env p x w =
     finish env x (fst (process_pages pages [] (logger w)))
       (w\<lparr>logger := snd (process_pages pages [] (logger w))\<rparr>)"
  by (simp add: convert_body_def split: prod.split)

lemma finish_short:
  "length t \<le> 1 \<Longrightarrow>
   finish env x t w = (Inr False, w\<lparr>logger := logger w @ [(WARNING, NoValidTable)]\<rparr>)"
  by (simp add: finish_def)

lemma save_True:
  "fst (save env df x w) = Inr True \<Longrightarrow>
   \<exists>fs'. makedirs env (dirname x) (files w) = (None, fs') \<and> excel_engine env x df fs' = None
     \<and> snd (save env df x w) = \<lparr>files = fs'(x \<mapsto> Sheet df), logger = logger w @ [(INFO, ConvertedTo x)]\<rparr>"
  by (auto simp: save_def to_excel_def split: prod.splits option.splits)

lemma finish_True:
  "fst (finish env x t w) = Inr True \<Longrightarrow>
   \<exists>df df' lg' fs'. 1 < length t \<and> tabulate t = Inr df
     \<and> coerce_columns (parse_number env) (columns df) df (logger w) = (Inr df', lg')
     \<and> makedirs env (dirname x) (files w) = (None, fs') \<and> excel_engine env x df' fs' = None
     \<and> snd (finish env x t w) = \<lparr>files = fs'(x \<mapsto> Sheet df'), logger = lg' @ [(INFO, ConvertedTo x)]\<rparr>"
proof -
  assume a: "fst (finish env x t w) = Inr True"
  then have len: "1 < length t"
    by (cases "length t \<le> 1") (auto simp: finish_short)
  then have ne: "\<not> (t = [] \<or> length t \<le> 1)" by auto
  obtain df where df: "tabulate t = (Inr df :: exn + 'a frame)"
    using a ne by (cases "tabulate t :: exn + 'a frame") (auto simp: finish_def)
  obtain r lg' where c: "coerce_columns (parse_number env) (columns df) df (logger w) = (r, lg')"
    by (cases "coerce_columns (parse_number env) (columns df) df (logger w)")
  obtain df' where r: "r = Inr df'"
    using a ne df c by (cases r) (auto simp: finish_def)
  have f: "finish env x t w = save env df' x (w\<lparr>logger := lg'\<rparr>)"
    using ne df c r by (simp add: finish_def)
  from a f have "fst (save env df' x (w\<lparr>logger := lg'\<rparr>)) = Inr True" by simp
  from save_True[OF this] f len df c r show ?thesis by auto
qed

lemma convert_body_True:
  assumes "fst (convert_body env p x w) = Inr True"
  shows "\<exists>pages t lg df df' lg' fs'. files w p = Some (Pdf pages)
     \<and> process_pages pages [] (logger w) = (t, lg) \<and> 1 < length t \<and> tabulate t = Inr df
     \<and> coerce_columns (parse_number env) (columns df) df lg = (Inr df', lg')
     \<and> makedirs env (dirname x) (files w) = (None, fs') \<and> excel_engine env x df' fs' = None
     \<and> snd (convert_body env p x w) = \<lparr>files = fs'(x \<mapsto> Sheet df'), logger = lg' @ [(INFO, ConvertedTo x)]\<rparr>"
proof -
  obtain node where n: "files w p = Some node"
    using assms by (cases "files w p") (auto simp: convert_body_def)
  obtain pages where "pdfplumber_open node = Inr pages"
    using assms n by (cases "pdfplumber_open node") (auto simp: convert_body_def)
  then have pdf: "files w p = Some (Pdf pages)" using n by (simp add: pdfplumber_open_Inr)
  obtain t lg where pp: "process_pages pages [] (logger w) = (t, lg)"
    by (cases "process_pages pages [] (logger w)")
  have cb: "convert_body env p x w = finish env x t (w\<lparr>logger := lg\<rparr>)"
    using convert_body_pdf[OF pdf, of env x] pp by simp
  then have "fst (finish env x t (w\<lparr>logger := lg\<rparr>)) = Inr True" using assms by simp
  from finish_True[OF this] cb pdf pp show ?thesis by auto
qed

lemma convert_True:
  assumes "fst (convert_pdf_to_excel env p x w)"
  shows "\<exists>pages t lg df df' lg' fs'. files w p = Some (Pdf pages)
     \<and> process_pages pages [] (logger w) = (t, lg) \<and> 1 < length t \<and> tabulate t = Inr df
     \<and> coerce_columns (parse_number env) (columns df) df lg = (Inr df', lg')
     \<and> makedirs env (dirname x) (files w) = (None, fs') \<and> excel_engine env x df' fs' = None
     \<and> snd (convert_pdf_to_excel env p x w) = \<lparr>files = fs'(x \<mapsto> Sheet df'), logger = lg' @ [(INFO, ConvertedTo x)]\<rparr>"
proof -
  obtain r w' where b: "convert_body env p x w = (r, w')" by (cases "convert_body env p x w")
  then have "r = Inr True" using assms by (cases r) (auto simp: convert_pdf_to_excel_def)
  then have "fst (convert_body env p x w) = Inr True"
    and "convert_pdf_to_excel env p x w = (True, snd (convert_body env p x w))"
    using b by (auto simp: convert_pdf_to_excel_def)
  then show ?thesis using convert_body_True[of env p x w] by simp
qed

lemma convert_body_short:
  assumes "files w p = Some (Pdf pages)"
    and "length (fst (process_pages pages [] (logger w))) \<le> 1"
  shows "convert_body env p x w =
           (Inr False, w\<lparr>logger := snd (process_pages pages [] (logger w)) @ [(WARNING, NoValidTable)]\<rparr>)"
  using convert_body_pdf[OF assms(1), of env x] assms(2) by (simp add: finish_short)

text \<open>
  Claim C5. When the pages of a PDF have been processed and the accumulated table is
  absent or has at most one row (in particular when no page yields a fragment),
  \<open>convert_pdf_to_excel\<close> returns \<open>False\<close> after logging one warning; the body of the
  \<open>try\<close> block returns and does not raise.
\<close>

theorem no_usable_table_fails:
  assumes "files w pdf_path = Some (Pdf pages)"
    and "length (fst (process_pages pages [] (logger w))) \<le> 1 \<or> fragments pages = []"
  shows "convert_body env pdf_path excel_path w =
           (Inr False, w\<lparr>logger := snd (process_pages pages [] (logger w)) @ [(WARNING, NoValidTable)]\<rparr>)
       \<and> convert_pdf_to_excel env pdf_path excel_path w =
           (False, w\<lparr>logger := snd (process_pages pages [] (logger w)) @ [(WARNING, NoValidTable)]\<rparr>)"
proof -
  have "length (fst (process_pages pages [] (logger w))) \<le> 1"
    using assms(2) by (auto simp: process_pages_acc)
  then have "convert_body env pdf_path excel_path w =
           (Inr False, w\<lparr>logger := snd (process_pages pages [] (logger w)) @ [(WARNING, NoValidTable)]\<rparr>)"
    using assms(1) by (rule convert_body_short[rotated])
  then show ?thesis by (simp add: convert_pdf_to_excel_def)
qed

theorem no_usable_table_fails_witness:
  "convert_pdf_to_excel env0 ''in/e.pdf'' ''out/e.xlsx'' empty_world =
     (False, empty_world\<lparr>logger := [(WARNING, CouldNotExtract (LibraryError ''boom'')), (WARNING, NoValidTable)]\<rparr>)"
proof -
  have f: "files empty_world ''in/e.pdf'' = Some (Pdf [Yields None, Raises (LibraryError ''boom''), Yields (Some [])])"
    by (simp add: empty_world_def)
  have g: "fragments [Yields None, Raises (LibraryError ''boom''), Yields (Some [])] = []"
    by (simp add: fragments_def fragment_def)
  show ?thesis
    using no_usable_table_fails [of empty_world "''in/e.pdf''" _ env0 "''out/e.xlsx''", OF f disjI2, OF g]
    by (simp add: empty_world_def)
qed

section \<open>Failure and success paths\<close>

text \<open>Unfolding sets for evaluating the model on the sample inputs.\<close>

lemmas sample_defs =
  sample_world_def plain_world_def empty_world_def sample_pdf_def sample_table_def env0_def
  parse_digits_def

lemmas convert_defs =
  convert_pdf_to_excel_def convert_body_def finish_def header_arg_def DataFrame_def width_def
  column_of_def getitem_def setitem_def to_numeric_def save_def makedirs_def to_excel_def
  dirname_def

lemma dirname_bare: "CHR ''/'' \<notin> set p \<Longrightarrow> dirname p = []"
proof -
  assume "CHR ''/'' \<notin> set p"
  then have "dropWhile (\<lambda>c. c \<noteq> CHR ''/'') (rev p) = []"
    by (auto simp: dropWhile_eq_Nil_conv)
  then show ?thesis by (simp add: dirname_def)
qed

lemma save_bare: "dirname x = [] \<Longrightarrow> save env df x w = (Inl FileNotFoundError, w)"
  by (simp add: save_def makedirs_def)

lemma convert_of_body:
  "convert_pdf_to_excel env p x w =
     (case convert_body env p x w of
        (Inr b, w') \<Rightarrow> (b, w')
      | (Inl e, w') \<Rightarrow> (False, w'\<lparr>logger := logger w' @ [(ERROR, ConversionFailed e)]\<rparr>))"
  by (simp add: convert_pdf_to_excel_def)

lemma finish_files_bare:
  "dirname x = [] \<Longrightarrow> files (snd (finish env x t w)) = files w \<and> fst (finish env x t w) \<noteq> Inr True"
  by (auto simp: finish_def save_bare split: sum.splits prod.splits)

lemma convert_body_files_bare:
  "dirname x = [] \<Longrightarrow>
   files (snd (convert_body env p x w)) = files w \<and> fst (convert_body env p x w) \<noteq> Inr True"
  using finish_files_bare[of x env]
  by (auto simp: convert_body_def split: option.splits sum.splits prod.splits)

text \<open>
  Claim C7. \<open>convert_pdf_to_excel\<close> propagates no exception and returns a boolean
  for every pair of paths: \<open>False\<close>, with an error logged, when the input path does not
  exist; \<open>False\<close>, with the error logged by the top-level handler, whenever the body
  raises (a reader that fails to open the file is one such case; frame construction,
  coercion, directory creation and writing reach the handler the same way); otherwise
  what the body returns. It returns \<open>True\<close> only with the spreadsheet written at the
  output path, the success record being the last of the log.
\<close>

theorem convert_never_raises:
  "(files w pdf_path = None \<longrightarrow>
      convert_pdf_to_excel env pdf_path excel_path w =
        (False, w\<lparr>logger := logger w @ [(ERROR, PdfNotFound pdf_path)]\<rparr>))
   \<and> (files w pdf_path = Some node \<and> pdfplumber_open node = Inl e \<longrightarrow>
      convert_body env pdf_path excel_path w = (Inl e, w))
   \<and> (convert_body env pdf_path excel_path w = (Inl e, w') \<longrightarrow>
      convert_pdf_to_excel env pdf_path excel_path w =
        (False, w'\<lparr>logger := logger w' @ [(ERROR, ConversionFailed e)]\<rparr>))
   \<and> (convert_body env pdf_path excel_path w = (Inr b, w') \<longrightarrow>
      convert_pdf_to_excel env pdf_path excel_path w = (b, w'))
   \<and> (fst (convert_pdf_to_excel env pdf_path excel_path w) \<longrightarrow>
      (\<exists>df. files (snd (convert_pdf_to_excel env pdf_path excel_path w)) excel_path = Some (Sheet df))
      \<and> last (logger (snd (convert_pdf_to_excel env pdf_path excel_path w))) = (INFO, ConvertedTo excel_path))"
proof -
  have a: "files w pdf_path = None \<longrightarrow>
      convert_pdf_to_excel env pdf_path excel_path w =
        (False, w\<lparr>logger := logger w @ [(ERROR, PdfNotFound pdf_path)]\<rparr>)"
    by (simp add: convert_of_body convert_body_missing)
  have b: "files w pdf_path = Some node \<and> pdfplumber_open node = Inl e \<longrightarrow>
      convert_body env pdf_path excel_path w = (Inl e, w)"
    by (simp add: convert_body_def)
  have c: "fst (convert_pdf_to_excel env pdf_path excel_path w) \<longrightarrow>
      (\<exists>df. files (snd (convert_pdf_to_excel env pdf_path excel_path w)) excel_path = Some (Sheet df))
      \<and> last (logger (snd (convert_pdf_to_excel env pdf_path excel_path w))) = (INFO, ConvertedTo excel_path)"
  proof
    assume "fst (convert_pdf_to_excel env pdf_path excel_path w)"
    from convert_True[OF this] show "(\<exists>df. files (snd (convert_pdf_to_excel env pdf_path excel_path w)) excel_path = Some (Sheet df))
      \<and> last (logger (snd (convert_pdf_to_excel env pdf_path excel_path w))) = (INFO, ConvertedTo excel_path)"
      by auto
  qed
  show ?thesis using a b c by (simp add: convert_of_body)
qed

theorem convert_never_raises_witness:
  "files plain_world ''nope.pdf'' = None
   \<and> convert_pdf_to_excel env0 ''nope.pdf'' ''out/a.xlsx'' plain_world =
       (False, plain_world\<lparr>logger := [(ERROR, PdfNotFound ''nope.pdf'')]\<rparr>)
   \<and> convert_body env0 ''in/a.pdf'' ''a.xlsx'' plain_world = (Inl FileNotFoundError, plain_world)
   \<and> convert_pdf_to_excel env0 ''in/a.pdf'' ''a.xlsx'' plain_world =
       (False, plain_world\<lparr>logger := [(ERROR, ConversionFailed FileNotFoundError)]\<rparr>)
   \<and> fst (convert_pdf_to_excel env0 ''in/a.pdf'' ''out/a.xlsx'' plain_world)
   \<and> (\<exists>df. files (snd (convert_pdf_to_excel env0 ''in/a.pdf'' ''out/a.xlsx'' plain_world)) ''out/a.xlsx''
         = Some (Sheet df))"
proof -
  have m: "files plain_world ''nope.pdf'' = None" by (simp add: plain_world_def)
  have r: "convert_body env0 ''in/a.pdf'' ''a.xlsx'' plain_world = (Inl FileNotFoundError, plain_world)"
    by (simp add: convert_defs sample_defs)
  have t: "fst (convert_pdf_to_excel env0 ''in/a.pdf'' ''out/a.xlsx'' plain_world)"
    by (simp add: convert_defs sample_defs)
  show ?thesis
    using m r t
      convert_never_raises [of plain_world "''nope.pdf''" env0 "''out/a.xlsx''"]
      convert_never_raises [of plain_world "''in/a.pdf''" env0 "''a.xlsx''" _ FileNotFoundError plain_world]
      convert_never_raises [of plain_world "''in/a.pdf''" env0 "''out/a.xlsx''"]
    by (simp add: plain_world_def)
qed

lemma process_pages_log_grows: "\<exists>records. snd (process_pages pages acc lg) = lg @ records"
proof (induction pages arbitrary: acc lg)
  case Nil
  then show ?case by simp
next
  case (Cons p ps)
  show ?case
  proof (cases "(p, lg)" rule: extract_table_from_page.cases)
    case (1 lg0)
    then show ?thesis using Cons.IH[of acc lg] by simp
  next
    case (2 t lg0)
    then show ?thesis using Cons.IH[of acc lg] Cons.IH[of t lg] Cons.IH[of "acc @ tl t" lg] by simp
  next
    case (3 e lg0)
    obtain records where "snd (process_pages ps acc (lg @ [(WARNING, CouldNotExtract e)]))
        = (lg @ [(WARNING, CouldNotExtract e)]) @ records"
      using Cons.IH[of acc "lg @ [(WARNING, CouldNotExtract e)]"] by blast
    then show ?thesis using 3 by simp
  qed
qed

text \<open>
  Claim C9, as stated, fails: it concludes that the file system is unchanged by the two
  early failure branches, but both branches log their failure (lines 42 and 69) and the
  record is appended to the log file. For a missing input and for a document without a
  usable table, the log file differs after the call.
\<close>

theorem early_failures_touch_log_file:
  "files empty_world ''nope.pdf'' = None
   \<and> fst (convert_pdf_to_excel env0 ''nope.pdf'' ''out/e.xlsx'' empty_world) = False
   \<and> filesystem empty_world log_file = Some (LogRecords [])
   \<and> filesystem (snd (convert_pdf_to_excel env0 ''nope.pdf'' ''out/e.xlsx'' empty_world)) log_file
       = Some (LogRecords [(ERROR, PdfNotFound ''nope.pdf'')])
   \<and> filesystem (snd (convert_pdf_to_excel env0 ''nope.pdf'' ''out/e.xlsx'' empty_world))
       \<noteq> filesystem empty_world
   \<and> fst (convert_pdf_to_excel env0 ''in/e.pdf'' ''out/e.xlsx'' empty_world) = False
   \<and> filesystem (snd (convert_pdf_to_excel env0 ''in/e.pdf'' ''out/e.xlsx'' empty_world)) log_file
       = Some (LogRecords [(WARNING, CouldNotExtract (LibraryError ''boom'')), (WARNING, NoValidTable)])
   \<and> filesystem (snd (convert_pdf_to_excel env0 ''in/e.pdf'' ''out/e.xlsx'' empty_world))
       \<noteq> filesystem empty_world"
proof -
  have m: "files empty_world ''nope.pdf'' = None" by (simp add: empty_world_def)
  have a: "convert_pdf_to_excel env0 ''nope.pdf'' ''out/e.xlsx'' empty_world =
      (False, empty_world\<lparr>logger := [(ERROR, PdfNotFound ''nope.pdf'')]\<rparr>)"
    by (simp add: convert_of_body convert_body_missing[OF m]) (simp add: empty_world_def)
  have b: "convert_pdf_to_excel env0 ''in/e.pdf'' ''out/e.xlsx'' empty_world =
      (False, empty_world\<lparr>logger := [(WARNING, CouldNotExtract (LibraryError ''boom'')),
                                       (WARNING, NoValidTable)]\<rparr>)"
    by (simp add: convert_defs empty_world_def)
  have z: "filesystem empty_world log_file = Some (LogRecords [])"
    by (simp add: filesystem_def empty_world_def)
  have fa: "filesystem (snd (convert_pdf_to_excel env0 ''nope.pdf'' ''out/e.xlsx'' empty_world)) log_file
       = Some (LogRecords [(ERROR, PdfNotFound ''nope.pdf'')])"
    unfolding a by (simp add: filesystem_def)
  have fb: "filesystem (snd (convert_pdf_to_excel env0 ''in/e.pdf'' ''out/e.xlsx'' empty_world)) log_file
       = Some (LogRecords [(WARNING, CouldNotExtract (LibraryError ''boom'')), (WARNING, NoValidTable)])"
    unfolding b by (simp add: filesystem_def)
  have na: "filesystem (snd (convert_pdf_to_excel env0 ''nope.pdf'' ''out/e.xlsx'' empty_world))
       \<noteq> filesystem empty_world"
  proof
    assume "filesystem (snd (convert_pdf_to_excel env0 ''nope.pdf'' ''out/e.xlsx'' empty_world))
       = filesystem empty_world"
    then have "filesystem (snd (convert_pdf_to_excel env0 ''nope.pdf'' ''out/e.xlsx'' empty_world)) log_file
       = filesystem empty_world log_file" by simp
    then show False using fa z by simp
  qed
  have nb: "filesystem (snd (convert_pdf_to_excel env0 ''in/e.pdf'' ''out/e.xlsx'' empty_world))
       \<noteq> filesystem empty_world"
  proof
    assume "filesystem (snd (convert_pdf_to_excel env0 ''in/e.pdf'' ''out/e.xlsx'' empty_world))
       = filesystem empty_world"
    then have "filesystem (snd (convert_pdf_to_excel env0 ''in/e.pdf'' ''out/e.xlsx'' empty_world)) log_file
       = filesystem empty_world log_file" by simp
    then show False using fb z by simp
  qed
  show ?thesis using m a b z fa fb na nb by simp
qed

text \<open>
  Claim C9, amended. When the input path does not exist, or the accumulated table has at
  most one row, \<open>convert_pdf_to_excel\<close> returns \<open>False\<close>, no output file is written
  and no directory is created: both returns come before the directory creation and the
  write, so the outcome is the same in every environment, and the file system is unchanged
  except for the log file, to which the records of the call (the failure record last)
  are appended.
\<close>

theorem early_failures_leave_files:
  assumes "files w pdf_path = None
     \<or> (\<exists>pages. files w pdf_path = Some (Pdf pages)
           \<and> length (fst (process_pages pages [] (logger w))) \<le> 1)"
  shows "fst (convert_pdf_to_excel env pdf_path excel_path w) = False
     \<and> files (snd (convert_pdf_to_excel env pdf_path excel_path w)) = files w
     \<and> convert_pdf_to_excel env pdf_path excel_path w = convert_pdf_to_excel env' pdf_path excel_path w
     \<and> (\<forall>p. p \<noteq> log_file \<longrightarrow>
           filesystem (snd (convert_pdf_to_excel env pdf_path excel_path w)) p = filesystem w p)
     \<and> (\<exists>records failure.
           filesystem (snd (convert_pdf_to_excel env pdf_path excel_path w)) log_file
             = Some (LogRecords (logger w @ records @ [failure]))
           \<and> (failure = (ERROR, PdfNotFound pdf_path) \<or> failure = (WARNING, NoValidTable)))"
  using assms
proof
  assume m: "files w pdf_path = None"
  have "logger w @ [(ERROR, PdfNotFound pdf_path)] = logger w @ [] @ [(ERROR, PdfNotFound pdf_path)]"
    by simp
  then have "\<exists>records failure.
      logger w @ [(ERROR, PdfNotFound pdf_path)] = logger w @ records @ [failure]
      \<and> (failure = (ERROR, PdfNotFound pdf_path) \<or> failure = (WARNING, NoValidTable))"
    by blast
  then show ?thesis using m by (simp add: convert_of_body convert_body_missing filesystem_def)
next
  assume "\<exists>pages. files w pdf_path = Some (Pdf pages)
           \<and> length (fst (process_pages pages [] (logger w))) \<le> 1"
  then obtain pages where p: "files w pdf_path = Some (Pdf pages)"
    and l: "length (fst (process_pages pages [] (logger w))) \<le> 1" by auto
  obtain records where r: "snd (process_pages pages [] (logger w)) = logger w @ records"
    using process_pages_log_grows by blast
  have "\<exists>records' failure.
      (logger w @ records) @ [(WARNING, NoValidTable)] = logger w @ records' @ [failure]
      \<and> (failure = (ERROR, PdfNotFound pdf_path) \<or> failure = (WARNING, NoValidTable))"
    by auto
  then show ?thesis
    using convert_body_short[OF p l, of env excel_path] convert_body_short[OF p l, of env' excel_path] r
    by (simp add: convert_of_body filesystem_def)
qed

theorem early_failures_leave_files_witness:
  "files empty_world ''nope.pdf'' = None
   \<and> fst (convert_pdf_to_excel env0 ''nope.pdf'' ''out/e.xlsx'' empty_world) = False
   \<and> files (snd (convert_pdf_to_excel env0 ''nope.pdf'' ''out/e.xlsx'' empty_world)) = files empty_world
   \<and> filesystem (snd (convert_pdf_to_excel env0 ''nope.pdf'' ''out/e.xlsx'' empty_world)) ''out/e.xlsx''
       = filesystem empty_world ''out/e.xlsx''
   \<and> filesystem (snd (convert_pdf_to_excel env0 ''nope.pdf'' ''out/e.xlsx'' empty_world)) ''out''
       = filesystem empty_world ''out''
   \<and> fst (convert_pdf_to_excel env0 ''in/e.pdf'' ''out/e.xlsx'' empty_world) = False
   \<and> files (snd (convert_pdf_to_excel env0 ''in/e.pdf'' ''out/e.xlsx'' empty_world)) = files empty_world
   \<and> filesystem (snd (convert_pdf_to_excel env0 ''in/e.pdf'' ''out/e.xlsx'' empty_world)) ''out/e.xlsx''
       = filesystem empty_world ''out/e.xlsx''
   \<and> filesystem (snd (convert_pdf_to_excel env0 ''in/e.pdf'' ''out/e.xlsx'' empty_world)) ''out''
       = filesystem empty_world ''out''"
proof -
  have m: "files empty_world ''nope.pdf'' = None" by (simp add: empty_world_def)
  have s: "\<exists>pages. files empty_world ''in/e.pdf'' = Some (Pdf pages)
           \<and> length (fst (process_pages pages [] (logger empty_world))) \<le> 1"
    by (simp add: empty_world_def)
  have o: "''out/e.xlsx'' \<noteq> log_file" "''out'' \<noteq> log_file" by (simp_all add: log_file_def)
  show ?thesis
    using m o early_failures_leave_files [of empty_world "''nope.pdf''" env0 "''out/e.xlsx''" env0, OF disjI1, OF m]
      early_failures_leave_files [of empty_world "''in/e.pdf''" env0 "''out/e.xlsx''" env0, OF disjI2, OF s]
    by simp
qed

text \<open>
  Claim C10. For an output path that is a bare file name (no slash),
  \<open>convert_pdf_to_excel\<close> returns \<open>False\<close> and writes nothing, whatever the input;
  when the input exists and yields a usable table that is coerced without error, the
  failure is the \<open>FileNotFoundError\<close> of creating the empty directory name, caught and
  logged by the top-level handler.
\<close>

theorem bare_filename_fails:
  assumes "CHR ''/'' \<notin> set excel_path"
  shows "fst (convert_pdf_to_excel env pdf_path excel_path w) = False
     \<and> files (snd (convert_pdf_to_excel env pdf_path excel_path w)) = files w
     \<and> (files w pdf_path = Some (Pdf pages) \<and> process_pages pages [] (logger w) = (t, lg)
          \<and> 1 < length t \<and> tabulate t = Inr df
          \<and> coerce_columns (parse_number env) (columns df) df lg = (Inr df', lg')
        \<longrightarrow> convert_pdf_to_excel env pdf_path excel_path w =
              (False, w\<lparr>logger := lg' @ [(ERROR, ConversionFailed FileNotFoundError)]\<rparr>))"
proof -
  have d: "dirname excel_path = []" using assms by (rule dirname_bare)
  obtain r w' where b: "convert_body env pdf_path excel_path w = (r, w')"
    by (cases "convert_body env pdf_path excel_path w")
  have "files w' = files w" and "r \<noteq> Inr True"
    using convert_body_files_bare[OF d, of env pdf_path w] b by auto
  then have a: "fst (convert_pdf_to_excel env pdf_path excel_path w) = False
     \<and> files (snd (convert_pdf_to_excel env pdf_path excel_path w)) = files w"
    using b by (cases r) (auto simp: convert_of_body)
  have c: "files w pdf_path = Some (Pdf pages) \<and> process_pages pages [] (logger w) = (t, lg)
          \<and> 1 < length t \<and> tabulate t = Inr df
          \<and> coerce_columns (parse_number env) (columns df) df lg = (Inr df', lg')
        \<longrightarrow> convert_pdf_to_excel env pdf_path excel_path w =
              (False, w\<lparr>logger := lg' @ [(ERROR, ConversionFailed FileNotFoundError)]\<rparr>)"
    by (auto simp: convert_of_body convert_body_pdf finish_def save_bare[OF d])
  show ?thesis using a c by simp
qed


theorem bare_filename_fails_witness:
  "CHR ''/'' \<notin> set ''a.xlsx''
   \<and> fst (convert_pdf_to_excel env0 ''in/a.pdf'' ''out/a.xlsx'' plain_world) = True
   \<and> convert_pdf_to_excel env0 ''in/a.pdf'' ''a.xlsx'' plain_world =
       (False, plain_world\<lparr>logger := [(ERROR, ConversionFailed FileNotFoundError)]\<rparr>)"
proof -
  define df :: "nat frame" where
    "df = \<lparr>columns = [Name (Some ''id''), Name (Some ''name'')], nrows = 2,
           series = [[Obj (Some ''1''), Obj (Some ''2'')], [Obj (Some ''x''), Obj (Some ''y'')]]\<rparr>"
  define df' :: "nat frame" where
    "df' = \<lparr>columns = [Name (Some ''id''), Name (Some ''name'')], nrows = 2,
           series = [[Number 1, Number 2], [Obj (Some ''x''), Obj (Some ''y'')]]\<rparr>"
  have h: "CHR ''/'' \<notin> set ''a.xlsx''" by simp
  have ok: "fst (convert_pdf_to_excel env0 ''in/a.pdf'' ''out/a.xlsx'' plain_world) = True"
    by (simp add: convert_defs sample_defs)
  have p: "files plain_world ''in/a.pdf'' = Some (Pdf [Yields (Some sample_table)])"
    by (simp add: plain_world_def)
  have q: "process_pages [Yields (Some sample_table)] [] (logger plain_world) = (sample_table, [])"
    by (simp add: plain_world_def sample_table_def)
  have l: "1 < length sample_table" by (simp add: sample_table_def)
  have t: "tabulate sample_table = Inr df"
    by (simp add: sample_table_def convert_defs df_def)
  have c: "coerce_columns (parse_number env0) (columns df) df [] = (Inr df', [])"
    by (simp add: convert_defs sample_defs df_def df'_def)
  have "convert_pdf_to_excel env0 ''in/a.pdf'' ''a.xlsx'' plain_world =
       (False, plain_world\<lparr>logger := [] @ [(ERROR, ConversionFailed FileNotFoundError)]\<rparr>)"
    using bare_filename_fails [OF h, of env0 "''in/a.pdf''" plain_world
        "[Yields (Some sample_table)]" sample_table "[]" df df' "[]"] p q l t c
    by blast
  then show ?thesis using h ok by simp
qed

lemma coerce_columns_frame:
  "fst (coerce_columns parse cols df lg) = fst (coerce_columns parse cols df lg')"
proof (induction cols arbitrary: df lg lg')
  case Nil
  then show ?case by simp
next
  case (Cons col cols)
  show ?case
  proof (cases "to_numeric parse (getitem df col)")
    case (Inl e)
    then show ?thesis using Cons.IH by simp
  next
    case (Inr s)
    then show ?thesis using Cons.IH by simp
  qed
qed

text \<open>
  Claim C8. The spreadsheet written depends on the document alone: two successful runs on
  the same PDF content and the same output path, from any two worlds (any log, any other
  files, in particular the world left by the first run) and with the same number parser,
  write the same frame: the same labels, the same rows in the same order and the same
  typing of every column.
\<close>

theorem same_document_same_sheet:
  assumes "files w1 pdf_path = files w2 pdf_path"
    and "parse_number env1 = parse_number env2"
    and "fst (convert_pdf_to_excel env1 pdf_path excel_path w1)"
    and "fst (convert_pdf_to_excel env2 pdf_path excel_path w2)"
  shows "files (snd (convert_pdf_to_excel env1 pdf_path excel_path w1)) excel_path =
         files (snd (convert_pdf_to_excel env2 pdf_path excel_path w2)) excel_path"
proof -
  from convert_True[OF assms(3)] obtain pages t lg df df' lg' fs' where
    a: "files w1 pdf_path = Some (Pdf pages)" "process_pages pages [] (logger w1) = (t, lg)"
       "tabulate t = Inr df"
       "coerce_columns (parse_number env1) (columns df) df lg = (Inr df', lg')"
       "snd (convert_pdf_to_excel env1 pdf_path excel_path w1) =
          \<lparr>files = fs'(excel_path \<mapsto> Sheet df'), logger = lg' @ [(INFO, ConvertedTo excel_path)]\<rparr>"
    by blast
  from convert_True[OF assms(4)] obtain pages2 t2 lg2 df2 df2' lg2' fs2' where
    b: "files w2 pdf_path = Some (Pdf pages2)" "process_pages pages2 [] (logger w2) = (t2, lg2)"
       "tabulate t2 = Inr df2"
       "coerce_columns (parse_number env2) (columns df2) df2 lg2 = (Inr df2', lg2')"
       "snd (convert_pdf_to_excel env2 pdf_path excel_path w2) =
          \<lparr>files = fs2'(excel_path \<mapsto> Sheet df2'), logger = lg2' @ [(INFO, ConvertedTo excel_path)]\<rparr>"
    by blast
  have pg: "pages2 = pages" using a(1) b(1) assms(1) by simp
  have "t = fst (process_pages pages [] (logger w1))" using a(2) by simp
  moreover have "t2 = fst (process_pages pages [] (logger w2))" using b(2) pg by simp
  ultimately have "t2 = t" by (simp add: process_pages_acc)
  then have d: "df2 = df" using a(3) b(3) by simp
  have "Inr df' = fst (coerce_columns (parse_number env1) (columns df) df lg)" using a(4) by simp
  also have "\<dots> = fst (coerce_columns (parse_number env2) (columns df) df lg2)"
    using coerce_columns_frame[of "parse_number env2" "columns df" df lg lg2] assms(2) by simp
  also have "\<dots> = Inr df2'" using b(4) d by simp
  finally have "df2' = df'" by simp
  then show ?thesis using a(5) b(5) by simp
qed

theorem same_document_same_sheet_witness:
  "fst (convert_pdf_to_excel env0 ''in/a.pdf'' ''out/a.xlsx'' plain_world)
   \<and> fst (convert_pdf_to_excel env0 ''in/a.pdf'' ''out/a.xlsx''
            (snd (convert_pdf_to_excel env0 ''in/a.pdf'' ''out/a.xlsx'' plain_world)))
   \<and> files (snd (convert_pdf_to_excel env0 ''in/a.pdf'' ''out/a.xlsx''
            (snd (convert_pdf_to_excel env0 ''in/a.pdf'' ''out/a.xlsx'' plain_world)))) ''out/a.xlsx''
     = files (snd (convert_pdf_to_excel env0 ''in/a.pdf'' ''out/a.xlsx'' plain_world)) ''out/a.xlsx''
   \<and> files (snd (convert_pdf_to_excel env0 ''in/a.pdf'' ''out/a.xlsx'' plain_world)) ''out/a.xlsx''
     = Some (Sheet \<lparr>columns = [Name (Some ''id''), Name (Some ''name'')], nrows = 2,
           series = [[Number 1, Number 2], [Obj (Some ''x''), Obj (Some ''y'')]]\<rparr>)"
proof -
  have one: "fst (convert_pdf_to_excel env0 ''in/a.pdf'' ''out/a.xlsx'' plain_world)"
    by (simp add: convert_defs sample_defs)
  have same: "files (snd (convert_pdf_to_excel env0 ''in/a.pdf'' ''out/a.xlsx'' plain_world)) ''in/a.pdf''
     = files plain_world ''in/a.pdf''"
    by (simp add: convert_defs sample_defs)
  have second: "fst (convert_pdf_to_excel env0 ''in/a.pdf'' ''out/a.xlsx''
            (snd (convert_pdf_to_excel env0 ''in/a.pdf'' ''out/a.xlsx'' plain_world)))"
    by (simp add: convert_defs sample_defs)
  have sheet: "files (snd (convert_pdf_to_excel env0 ''in/a.pdf'' ''out/a.xlsx'' plain_world)) ''out/a.xlsx''
     = Some (Sheet \<lparr>columns = [Name (Some ''id''), Name (Some ''name'')], nrows = 2,
           series = [[Number 1, Number 2], [Obj (Some ''x''), Obj (Some ''y'')]]\<rparr>)"
    by (simp add: convert_defs sample_defs)
  show ?thesis
    using one second sheet same_document_same_sheet [OF same refl second one]
    by simp
qed

section \<open>Frames, headers and coercion\<close>

lemma width_uniform:
  "\<forall>r\<in>set data. length r = L \<Longrightarrow> fold max (map length data) a = (if data = [] then a else max a L)"
  by (induction data arbitrary: a) auto

lemma width_rect: "data \<noteq> [] \<Longrightarrow> \<forall>r\<in>set data. length r = L \<Longrightarrow> width data = L"
  using width_uniform[of data L 0] by (simp add: width_def)

lemma DataFrame_ok: "DataFrame data names = Inr df \<Longrightarrow> frame_ok df \<and> nrows df = length data"
  by (auto simp: DataFrame_def frame_ok_def column_of_def list_all_iff split: option.splits if_splits)

lemma those_length: "those xs = Some ys \<Longrightarrow> length ys = length xs"
  by (induction xs arbitrary: ys) (auto split: option.splits)

lemma coerced_length: "length (coerced parse s) = length s"
  by (auto simp: coerced_def those_length split: option.splits dest!: those_length)

lemma to_numeric_Series: "to_numeric parse (Series s) = Inr (coerced parse s)"
  by (simp add: to_numeric_def coerced_def split: option.splits)

lemma to_numeric_SubFrame: "to_numeric parse (SubFrame cs) = Inl TypeError"
  by (simp add: to_numeric_def)

lemma to_numeric_Inr: "to_numeric parse sel = Inr s' \<Longrightarrow> \<exists>s. sel = Series s \<and> s' = coerced parse s"
  by (cases sel) (auto simp: to_numeric_Series to_numeric_SubFrame)

lemma to_numeric_Inl: "to_numeric parse sel = Inl e \<Longrightarrow> e = TypeError"
  by (cases sel) (auto simp: to_numeric_Series to_numeric_SubFrame)

lemma getitem_Series:
  "getitem df col = Series s \<Longrightarrow> s \<in> set (series df)"
proof -
  assume a: "getitem df col = Series s"
  then have "filter (\<lambda>(l, s). l = col) (zip (columns df) (series df)) = [(col, s)]"
    by (auto simp: getitem_def split: list.splits prod.splits dest: filter_eq_ConsD)
  then have "(col, s) \<in> set (filter (\<lambda>(l, s). l = col) (zip (columns df) (series df)))"
    by simp
  then have "(col, s) \<in> set (zip (columns df) (series df))"
    by simp
  then show ?thesis by (rule set_zip_rightD)
qed

lemma setitem_ok:
  "frame_ok df \<Longrightarrow> length s = nrows df \<Longrightarrow>
   frame_ok (setitem df col s) \<and> columns (setitem df col s) = columns df
     \<and> nrows (setitem df col s) = nrows df"
  by (auto simp: frame_ok_def setitem_def list_all_iff dest: set_zip_rightD)

lemma coerce_columns_shape:
  "coerce_columns parse cols df lg = (Inr df', lg') \<Longrightarrow> frame_ok df \<Longrightarrow>
   frame_ok df' \<and> columns df' = columns df \<and> nrows df' = nrows df"
proof (induction cols arbitrary: df lg)
  case Nil
  then show ?case by simp
next
  case (Cons col cols)
  show ?case
  proof (cases "to_numeric parse (getitem df col)")
    case (Inl e)
    then have "e = TypeError" by (rule to_numeric_Inl)
    then show ?thesis using Cons.prems Inl by simp
  next
    case (Inr s')
    then obtain s where g: "getitem df col = Series s" and s': "s' = coerced parse s"
      using to_numeric_Inr by blast
    have "s \<in> set (series df)" using g by (rule getitem_Series)
    then have "length s' = nrows df"
      using Cons.prems(2) s' by (simp add: frame_ok_def list_all_iff coerced_length)
    then have ok: "frame_ok (setitem df col s') \<and> columns (setitem df col s') = columns df
        \<and> nrows (setitem df col s') = nrows df"
      using Cons.prems(2) setitem_ok by blast
    have "coerce_columns parse cols (setitem df col s') lg = (Inr df', lg')"
      using Cons.prems(1) Inr by simp
    from Cons.IH[OF this] ok show ?thesis by simp
  qed
qed

lemma coerce_columns_logger: "snd (coerce_columns parse cols df lg) = lg"
proof (induction cols arbitrary: df)
  case Nil
  then show ?case by simp
next
  case (Cons col cols)
  show ?case
  proof (cases "to_numeric parse (getitem df col)")
    case (Inl e)
    then have "e = TypeError" by (rule to_numeric_Inl)
    then show ?thesis using Inl by simp
  next
    case (Inr s')
    then show ?thesis using Cons.IH by simp
  qed
qed

text \<open>
  Claim C4. After accumulation, the first row of the accumulated table is passed as the
  column names exactly when it has more than one cell, and then the frame carries it as
  its labels. With at most one cell the frame gets the ordinal labels \<open>0, 1, ...\<close>, and
  a single header cell is not among them. In both cases the first row is left out of the
  data: the frame holds the remaining rows.
\<close>

theorem header_policy:
  "(header_arg first_row = Some first_row \<longleftrightarrow> 1 < length first_row)
   \<and> (1 < length first_row \<and> tabulate (first_row # rest) = Inr df
        \<longrightarrow> columns df = map Name first_row)
   \<and> (length first_row \<le> 1 \<longrightarrow>
        tabulate (first_row # rest) =
          Inr \<lparr>columns = map Ordinal [0..<width rest], nrows = length rest,
               series = map (column_of rest) [0..<width rest]\<rparr>)
   \<and> (tabulate (first_row # rest) = Inr df
        \<longrightarrow> nrows df = length rest \<and> series df = map (column_of rest) [0..<width rest])
   \<and> (first_row = [c] \<and> tabulate (first_row # rest) = Inr df \<longrightarrow> Name c \<notin> set (columns df))"
  by (auto simp: header_arg_def DataFrame_def split: if_splits)

theorem header_policy_witness:
  "header_arg [Some ''id'', Some ''name''] = Some [Some ''id'', Some ''name'']
   \<and> header_arg [Some ''title''] = None
   \<and> (tabulate sample_table :: exn + nat frame) =
       Inr \<lparr>columns = [Name (Some ''id''), Name (Some ''name'')], nrows = 2,
            series = [[Obj (Some ''1''), Obj (Some ''2'')], [Obj (Some ''x''), Obj (Some ''y'')]]\<rparr>
   \<and> (tabulate narrow_table :: exn + nat frame) =
       Inr \<lparr>columns = [Ordinal 0, Ordinal 1], nrows = 2,
            series = [[Obj (Some ''1''), Obj (Some ''3'')], [Obj (Some ''2''), Obj (Some ''4'')]]\<rparr>"
proof -
  define df :: "nat frame" where
    "df = \<lparr>columns = [Name (Some ''id''), Name (Some ''name'')], nrows = 2,
           series = [[Obj (Some ''1''), Obj (Some ''2'')], [Obj (Some ''x''), Obj (Some ''y'')]]\<rparr>"
  have t: "tabulate ([Some ''id'', Some ''name''] # [[Some ''1'', Some ''x''], [Some ''2'', Some ''y'']]) = Inr df"
    by (simp add: df_def header_arg_def DataFrame_def width_def column_of_def)
  have l: "1 < length [Some ''id'', Some ''name'']" by simp
  have a: "header_arg [Some ''id'', Some ''name''] = Some [Some ''id'', Some ''name'']"
    and b: "columns df = map Name [Some ''id'', Some ''name'']"
    using header_policy [of "[Some ''id'', Some ''name'']"
        "[[Some ''1'', Some ''x''], [Some ''2'', Some ''y'']]" df "Some ''id''"] t l
    by blast+
  have s: "length [Some ''title''] \<le> 1" by simp
  have d: "tabulate ([Some ''title''] # [[Some ''1'', Some ''2''], [Some ''3'', Some ''4'']]) =
          (Inr \<lparr>columns = map Ordinal [0..<width [[Some ''1'', Some ''2''], [Some ''3'', Some ''4'']]],
               nrows = length [[Some ''1'', Some ''2''], [Some ''3'', Some ''4'']],
               series = map (column_of [[Some ''1'', Some ''2''], [Some ''3'', Some ''4'']])
                   [0..<width [[Some ''1'', Some ''2''], [Some ''3'', Some ''4'']]]\<rparr> :: exn + nat frame)"
    using header_policy [of "[Some ''title'']" "[[Some ''1'', Some ''2''], [Some ''3'', Some ''4'']]"
        df "Some ''title''"] s
    by blast
  have w: "[0..<width [[Some ''1'', Some ''2''], [Some ''3'', Some ''4'']]] = [0, 1]"
    by (simp add: width_def upt_rec)
  have e: "header_arg [Some ''title''] = None" by (simp add: header_arg_def)
  show ?thesis
    using a e t d unfolding w
    by (simp add: df_def narrow_table_def sample_table_def column_of_def)
qed

lemma fragment_Yields: "t \<noteq> [] \<Longrightarrow> fragment (Yields (Some t)) = Some t"
  by (simp add: fragment_def)

lemma fragments_replicate:
  "t \<noteq> [] \<Longrightarrow> fragments (replicate N (Yields (Some t))) = replicate N t"
  by (induction N) (simp_all add: fragments_Cons fragment_Yields, simp add: fragments_def)

lemma stitched_replicate:
  "stitched (replicate (Suc n) (h # ds)) = h # concat (replicate (Suc n) ds)"
  by simp

lemma length_concat_replicate: "length (concat (replicate n ds)) = n * length ds"
  by (induction n) simp_all

lemma set_concat_replicate: "0 < n \<Longrightarrow> set (concat (replicate n ds)) = set ds"
  by (induction n) auto

lemma identical_pages_table:
  assumes "1 \<le> N"
  shows "fst (process_pages (replicate N (Yields (Some (h # ds)))) [] lg) = h # concat (replicate N ds)"
proof -
  obtain n where n: "N = Suc n" using assms by (cases N) auto
  show ?thesis
    unfolding n by (simp add: process_pages_acc fragments_replicate stitched_replicate del: replicate_Suc)
qed

lemma identical_pages_frame:
  assumes "1 \<le> N" and "1 \<le> M" and "length ds = M" and "\<forall>r\<in>set ds. length r = length h"
  shows "\<exists>df :: 'n frame. tabulate (h # concat (replicate N ds)) = Inr df
           \<and> frame_ok df \<and> nrows df = N * M
           \<and> columns df = (if 1 < length h then map Name h else map Ordinal [0..<length h])"
proof -
  let ?data = "concat (replicate N ds)"
  have len: "length ?data = N * M" using assms(3) by (simp add: length_concat_replicate)
  have "0 < N * M" using assms(1,2) by simp
  then have ne: "?data \<noteq> []" using len by auto
  have "set ?data = set ds" using assms(1) by (simp add: set_concat_replicate)
  then have w: "width ?data = length h" using ne assms(4) by (simp add: width_rect)
  have "\<exists>df :: 'n frame. DataFrame ?data (header_arg h) = Inr df
           \<and> columns df = (if 1 < length h then map Name h else map Ordinal [0..<length h])"
    by (simp add: DataFrame_def header_arg_def w)
  then obtain df :: "'n frame" where d: "DataFrame ?data (header_arg h) = Inr df"
    and c: "columns df = (if 1 < length h then map Name h else map Ordinal [0..<length h])"
    by blast
  have "frame_ok df \<and> nrows df = N * M" using DataFrame_ok[OF d] len by simp
  then show ?thesis using d c by auto
qed

lemma filter_label_distinct:
  "length ss = length cs \<Longrightarrow> distinct cs \<Longrightarrow> i < length cs \<Longrightarrow>
   filter (\<lambda>(l, s). l = cs ! i) (zip cs ss) = [(cs ! i, ss ! i)]"
proof (induction ss cs arbitrary: i rule: list_induct2)
  case Nil
  then show ?case by simp
next
  case (Cons s ss c cs)
  show ?case
  proof (cases i)
    case 0
    have "filter (\<lambda>(l, s). l = c) (zip cs ss) = []"
      using Cons.prems(1) by (auto simp: filter_empty_conv dest: set_zip_leftD)
    then show ?thesis using 0 by simp
  next
    case (Suc j)
    then have "cs ! j \<noteq> c" using Cons.prems by auto
    then show ?thesis using Suc Cons by auto
  qed
qed

lemma getitem_distinct:
  "frame_ok df \<Longrightarrow> distinct (columns df) \<Longrightarrow> i < length (columns df) \<Longrightarrow>
   getitem df (columns df ! i) = Series (series df ! i)"
  by (simp add: getitem_def frame_ok_def filter_label_distinct)

lemma coerce_columns_distinct:
  assumes "frame_ok df" and "distinct (columns df)" and "set cols \<subseteq> set (columns df)"
    and "distinct cols"
  shows "coerce_columns parse cols df lg =
     (Inr (df\<lparr>series := map (\<lambda>(l, s). if l \<in> set cols then coerced parse s else s)
                           (zip (columns df) (series df))\<rparr>), lg)"
  using assms
proof (induction cols arbitrary: df)
  case Nil
  then have "map (\<lambda>(l, s). s) (zip (columns df) (series df)) = series df"
    by (simp add: frame_ok_def list_eq_iff_nth_eq)
  then show ?case by simp
next
  case (Cons col cols)
  let ?cs = "columns df" and ?ss = "series df"
  have len: "length ?ss = length ?cs" using Cons.prems(1) by (simp add: frame_ok_def)
  obtain i where i: "i < length ?cs" "?cs ! i = col"
    using Cons.prems(3) by (auto simp: in_set_conv_nth)
  have g: "getitem df col = Series (?ss ! i)"
    using getitem_distinct[OF Cons.prems(1,2) i(1)] i(2) by simp
  let ?df1 = "setitem df col (coerced parse (?ss ! i))"
  have "?ss ! i \<in> set ?ss" using i(1) len by simp
  then have "length (coerced parse (?ss ! i)) = nrows df"
    using Cons.prems(1) by (simp add: frame_ok_def list_all_iff coerced_length)
  then have ok1: "frame_ok ?df1" and c1: "columns ?df1 = ?cs"
    using setitem_ok[OF Cons.prems(1)] by blast+
  have step: "coerce_columns parse (col # cols) df lg = coerce_columns parse cols ?df1 lg"
    using g by (simp add: to_numeric_Series)
  have ih: "coerce_columns parse cols ?df1 lg =
     (Inr (?df1\<lparr>series := map (\<lambda>(l, s). if l \<in> set cols then coerced parse s else s)
                           (zip (columns ?df1) (series ?df1))\<rparr>), lg)"
    using Cons.IH[of ?df1] ok1 c1 Cons.prems(2,3,4) by simp
  have z: "series ?df1 = map (\<lambda>(l, old). if l = col then coerced parse (?ss ! i) else old) (zip ?cs ?ss)"
    by (simp add: setitem_def)
  have eq: "map (\<lambda>(l, s). if l \<in> set cols then coerced parse s else s) (zip ?cs (series ?df1))
      = map (\<lambda>(l, s). if l \<in> set (col # cols) then coerced parse s else s) (zip ?cs ?ss)"
  proof (rule nth_equalityI)
    show "length (map (\<lambda>(l, s). if l \<in> set cols then coerced parse s else s) (zip ?cs (series ?df1)))
      = length (map (\<lambda>(l, s). if l \<in> set (col # cols) then coerced parse s else s) (zip ?cs ?ss))"
      using len by (simp add: z)
  next
    fix j
    assume "j < length (map (\<lambda>(l, s). if l \<in> set cols then coerced parse s else s) (zip ?cs (series ?df1)))"
    then have j: "j < length ?cs" using len by (simp add: z)
    have zj: "series ?df1 ! j = (if ?cs ! j = col then coerced parse (?ss ! i) else ?ss ! j)"
      using j len by (simp add: z)
    show "map (\<lambda>(l, s). if l \<in> set cols then coerced parse s else s) (zip ?cs (series ?df1)) ! j
      = map (\<lambda>(l, s). if l \<in> set (col # cols) then coerced parse s else s) (zip ?cs ?ss) ! j"
    proof (cases "?cs ! j = col")
      case True
      then have "columns df ! j = columns df ! i" using i(2) by simp
      then have "j = i" using i(1) j Cons.prems(2) nth_eq_iff_index_eq by blast
      moreover have "col \<notin> set cols" using Cons.prems(4) by simp
      ultimately show ?thesis using j len zj True by (simp add: z)
    next
      case False
      then show ?thesis using j len zj by (simp add: z)
    qed
  qed
  have "?df1\<lparr>series := map (\<lambda>(l, s). if l \<in> set cols then coerced parse s else s)
                           (zip (columns ?df1) (series ?df1))\<rparr>
      = df\<lparr>series := map (\<lambda>(l, s). if l \<in> set (col # cols) then coerced parse s else s) (zip ?cs ?ss)\<rparr>"
    using eq c1 by (simp add: setitem_def)
  then show ?case using step ih by simp
qed

text \<open>
  With pairwise distinct labels the loop coerces every column on its own, all or nothing,
  never raises and never logs.
\<close>

lemma coerce_columns_all_or_nothing:
  assumes "frame_ok df" and "distinct (columns df)"
  shows "coerce_columns parse (columns df) df lg =
           (Inr (df\<lparr>series := map (coerced parse) (series df)\<rparr>), lg)"
proof -
  have "map (\<lambda>(l, s). if l \<in> set (columns df) then coerced parse s else s) (zip (columns df) (series df))
      = map (coerced parse) (series df)"
    using assms(1) by (auto simp: frame_ok_def list_eq_iff_nth_eq)
  then show ?thesis
    using coerce_columns_distinct[OF assms subset_refl assms(2), of parse lg] by simp
qed

lemma those_map:
  "those (map f s) = (if list_all (\<lambda>v. f v \<noteq> None) s then Some (map (\<lambda>v. the (f v)) s) else None)"
  by (induction s) (auto split: option.splits)

lemma coerced_cases:
  "coerced parse s =
     (if list_all (\<lambda>v. numeric parse v \<noteq> None) s then map (\<lambda>v. Number (the (numeric parse v))) s else s)"
  by (simp add: coerced_def those_map)

lemma finish_success:
  assumes "1 < length t" and "tabulate t = Inr df"
    and "coerce_columns (parse_number env) (columns df) df (logger w) = (Inr df', lg')"
    and "makedirs env (dirname x) (files w) = (None, fs')"
    and "excel_engine env x df' fs' = None"
  shows "finish env x t w =
           (Inr True, \<lparr>files = fs'(x \<mapsto> Sheet df'), logger = lg' @ [(INFO, ConvertedTo x)]\<rparr>)"
proof -
  have "\<not> (t = [] \<or> length t \<le> 1)" using assms(1) by auto
  then show ?thesis using assms(2-5) by (simp add: finish_def save_def to_excel_def)
qed

lemma identical_pages_success:
  assumes "1 \<le> N" and "1 \<le> M" and "length ds = M" and "\<forall>r\<in>set ds. length r = length h"
    and "distinct h"
    and "files w pdf_path = Some (Pdf (replicate N (Yields (Some (h # ds)))))"
    and "makedirs env (dirname excel_path) (files w) = (None, fs')"
    and "\<forall>df. excel_engine env excel_path df fs' = None"
  shows "fst (convert_pdf_to_excel env pdf_path excel_path w)"
proof -
  let ?pages = "replicate N (Yields (Some (h # ds)))"
  let ?t = "h # concat (replicate N ds)"
  let ?lg = "snd (process_pages ?pages [] (logger w))"
  obtain df :: "'a frame" where df: "tabulate ?t = Inr df" "frame_ok df"
    and cols: "columns df = (if 1 < length h then map Name h else map Ordinal [0..<length h])"
    using identical_pages_frame[OF assms(1-4), where ?'n = 'a] by blast
  have "distinct (columns df)"
    using cols assms(5) by (simp add: distinct_map inj_on_def)
  then have co: "coerce_columns (parse_number env) (columns df) df ?lg =
           (Inr (df\<lparr>series := map (coerced (parse_number env)) (series df)\<rparr>), ?lg)"
    using df(2) by (rule coerce_columns_all_or_nothing[rotated])
  have "0 < N * M" using assms(1,2) by simp
  then have len: "1 < length ?t" using assms(3) by (simp add: length_concat_replicate)
  have "convert_body env pdf_path excel_path w = finish env excel_path ?t (w\<lparr>logger := ?lg\<rparr>)"
    using convert_body_pdf[OF assms(6), of env excel_path] identical_pages_table[OF assms(1), of h ds "logger w"]
    by simp
  also have "\<dots> = (Inr True,
      \<lparr>files = fs'(excel_path \<mapsto> Sheet (df\<lparr>series := map (coerced (parse_number env)) (series df)\<rparr>)),
       logger = ?lg @ [(INFO, ConvertedTo excel_path)]\<rparr>)"
    using finish_success[OF len df(1), of env "w\<lparr>logger := ?lg\<rparr>" _ ?lg excel_path fs'] co assms(7,8)
    by simp
  finally show ?thesis by (simp add: convert_of_body)
qed

text \<open>
  Identical pages with pairwise distinct header cells. A PDF of \<open>N \<ge> 1\<close> pages, each yielding the same table of a header row
  \<open>h\<close> and \<open>M \<ge> 1\<close> data rows \<open>ds\<close> (every row as wide as the header, as the
  extraction library returns them): the frame that \<open>convert_pdf_to_excel\<close> builds from
  the accumulated table has one row of labels (the header, or the ordinals when the
  header has a single cell) and exactly \<open>N * M\<close> data rows; whenever the conversion
  returns \<open>True\<close> the sheet written at the output path has this shape; and it does
  return \<open>True\<close> when the header cells are pairwise distinct and the directory creation
  and the write go through.
\<close>

lemma identical_pages_row_count:
  assumes "1 \<le> N" and "1 \<le> M" and "length ds = M" and "\<forall>r\<in>set ds. length r = length h"
  shows "(\<exists>df :: 'n frame.
            tabulate (fst (process_pages (replicate N (Yields (Some (h # ds)))) [] lg)) = Inr df
            \<and> frame_ok df \<and> nrows df = N * M
            \<and> columns df = (if 1 < length h then map Name h else map Ordinal [0..<length h]))
       \<and> (files w pdf_path = Some (Pdf (replicate N (Yields (Some (h # ds)))))
            \<and> fst (convert_pdf_to_excel (env :: 'n env) pdf_path excel_path w)
          \<longrightarrow> (\<exists>df. files (snd (convert_pdf_to_excel env pdf_path excel_path w)) excel_path = Some (Sheet df)
                 \<and> frame_ok df \<and> nrows df = N * M
                 \<and> columns df = (if 1 < length h then map Name h else map Ordinal [0..<length h])))
       \<and> (files w pdf_path = Some (Pdf (replicate N (Yields (Some (h # ds)))))
            \<and> distinct h
            \<and> makedirs env (dirname excel_path) (files w) = (None, fs')
            \<and> (\<forall>df. excel_engine env excel_path df fs' = None)
          \<longrightarrow> fst (convert_pdf_to_excel env pdf_path excel_path w))"
proof (intro conjI impI)
  show "\<exists>df :: 'n frame.
            tabulate (fst (process_pages (replicate N (Yields (Some (h # ds)))) [] lg)) = Inr df
            \<and> frame_ok df \<and> nrows df = N * M
            \<and> columns df = (if 1 < length h then map Name h else map Ordinal [0..<length h])"
    using identical_pages_frame[OF assms] by (simp add: identical_pages_table[OF assms(1)])
next
  assume "files w pdf_path = Some (Pdf (replicate N (Yields (Some (h # ds)))))
            \<and> distinct h
            \<and> makedirs env (dirname excel_path) (files w) = (None, fs')
            \<and> (\<forall>df. excel_engine env excel_path df fs' = None)"
  then show "fst (convert_pdf_to_excel env pdf_path excel_path w)"
    using identical_pages_success[OF assms, of w pdf_path env excel_path fs'] by blast
next
  assume a: "files w pdf_path = Some (Pdf (replicate N (Yields (Some (h # ds)))))
            \<and> fst (convert_pdf_to_excel env pdf_path excel_path w)"
  from convert_True[of env pdf_path excel_path w] a obtain pages t lg1 df df' lg' fs' where
    c: "files w pdf_path = Some (Pdf pages)" "process_pages pages [] (logger w) = (t, lg1)"
       "tabulate t = Inr df"
       "coerce_columns (parse_number env) (columns df) df lg1 = (Inr df', lg')"
       "snd (convert_pdf_to_excel env pdf_path excel_path w) =
          \<lparr>files = fs'(excel_path \<mapsto> Sheet df'), logger = lg' @ [(INFO, ConvertedTo excel_path)]\<rparr>"
    by blast
  have "pages = replicate N (Yields (Some (h # ds)))" using a c(1) by simp
  then have "t = h # concat (replicate N ds)"
    using c(2) identical_pages_table[OF assms(1), of h ds "logger w"] by simp
  then have "tabulate (h # concat (replicate N ds)) = Inr df" using c(3) by simp
  then have "frame_ok df \<and> nrows df = N * M
      \<and> columns df = (if 1 < length h then map Name h else map Ordinal [0..<length h])"
    using identical_pages_frame[OF assms, where ?'n = 'n] by auto
  then have "frame_ok df' \<and> nrows df' = N * M
      \<and> columns df' = (if 1 < length h then map Name h else map Ordinal [0..<length h])"
    using coerce_columns_shape[OF c(4)] by simp
  then show "\<exists>df. files (snd (convert_pdf_to_excel env pdf_path excel_path w)) excel_path = Some (Sheet df)
                 \<and> frame_ok df \<and> nrows df = N * M
                 \<and> columns df = (if 1 < length h then map Name h else map Ordinal [0..<length h])"
    using c(5) by simp
qed


lemma identical_pages_row_count_example:
  "(1::nat) \<le> 2
   \<and> length [[Some ''1'', Some ''x''], [Some ''2'', Some ''y'']] = 2
   \<and> distinct [Some ''id'', Some ''name'']
   \<and> makedirs env0 (dirname ''out/t.xlsx'') (files twice_world) = (None, (files twice_world)(''out'' \<mapsto> Dir))
   \<and> fst (convert_pdf_to_excel env0 ''in/t.pdf'' ''out/t.xlsx'' twice_world)
   \<and> (\<exists>df :: nat frame.
         tabulate (fst (process_pages (replicate 2 (Yields (Some sample_table))) [] [])) = Inr df
         \<and> frame_ok df \<and> nrows df = 2 * 2
         \<and> columns df = [Name (Some ''id''), Name (Some ''name'')])
   \<and> (\<exists>df. files (snd (convert_pdf_to_excel env0 ''in/t.pdf'' ''out/t.xlsx'' twice_world)) ''out/t.xlsx''
              = Some (Sheet df)
         \<and> frame_ok df \<and> nrows df = 2 * 2
         \<and> columns df = [Name (Some ''id''), Name (Some ''name'')])"
proof -
  have n: "(1::nat) \<le> 2" by simp
  have l: "length [[Some ''1'', Some ''x''], [Some ''2'', Some ''y'']] = (2::nat)" by simp
  have r: "\<forall>r\<in>set [[Some ''1'', Some ''x''], [Some ''2'', Some ''y'']].
             length r = length [Some ''id'', Some ''name'']" by simp
  have t: "sample_table = [Some ''id'', Some ''name''] # [[Some ''1'', Some ''x''], [Some ''2'', Some ''y'']]"
    by (simp add: sample_table_def)
  have f: "files twice_world ''in/t.pdf'' = Some (Pdf (replicate 2 (Yields (Some sample_table))))"
    by (simp add: twice_world_def)
  have d: "distinct [Some ''id'', Some ''name'']" by simp
  have m: "makedirs env0 (dirname ''out/t.xlsx'') (files twice_world) =
             (None, (files twice_world)(''out'' \<mapsto> Dir))"
    by (simp add: makedirs_def dirname_def env0_def)
  have e: "\<forall>df. excel_engine env0 ''out/t.xlsx'' df ((files twice_world)(''out'' \<mapsto> Dir)) = None"
    by (simp add: env0_def)
  have all: "(\<exists>df :: nat frame.
            tabulate (fst (process_pages (replicate 2 (Yields (Some sample_table))) [] [])) = Inr df
            \<and> frame_ok df \<and> nrows df = 2 * 2
            \<and> columns df = (if 1 < length [Some ''id'', Some ''name''] then map Name [Some ''id'', Some ''name'']
                 else map Ordinal [0..<length [Some ''id'', Some ''name'']]))
       \<and> (files twice_world ''in/t.pdf'' = Some (Pdf (replicate 2 (Yields (Some sample_table))))
            \<and> fst (convert_pdf_to_excel env0 ''in/t.pdf'' ''out/t.xlsx'' twice_world)
          \<longrightarrow> (\<exists>df. files (snd (convert_pdf_to_excel env0 ''in/t.pdf'' ''out/t.xlsx'' twice_world)) ''out/t.xlsx'' = Some (Sheet df)
                 \<and> frame_ok df \<and> nrows df = 2 * 2
                 \<and> columns df = (if 1 < length [Some ''id'', Some ''name''] then map Name [Some ''id'', Some ''name'']
                 else map Ordinal [0..<length [Some ''id'', Some ''name'']])))
       \<and> (files twice_world ''in/t.pdf'' = Some (Pdf (replicate 2 (Yields (Some sample_table))))
            \<and> distinct [Some ''id'', Some ''name'']
            \<and> makedirs env0 (dirname ''out/t.xlsx'') (files twice_world) = (None, (files twice_world)(''out'' \<mapsto> Dir))
            \<and> (\<forall>df. excel_engine env0 ''out/t.xlsx'' df ((files twice_world)(''out'' \<mapsto> Dir)) = None)
          \<longrightarrow> fst (convert_pdf_to_excel env0 ''in/t.pdf'' ''out/t.xlsx'' twice_world))"
    using identical_pages_row_count [OF n n l r, of "[]" twice_world "''in/t.pdf''" env0 "''out/t.xlsx''"
        "(files twice_world)(''out'' \<mapsto> Dir)"]
    unfolding t .
  then have ok: "fst (convert_pdf_to_excel env0 ''in/t.pdf'' ''out/t.xlsx'' twice_world)"
    using f d m e by blast
  show ?thesis using n l d m ok f all by simp
qed

text \<open>
  A header with a repeated label: \<open>df[col]\<close> is then a frame, \<open>to_numeric\<close> raises
  \<open>TypeError\<close>, the loop's \<open>except ValueError\<close> does not catch it and the conversion
  ends in the top-level handler.
\<close>

lemma duplicate_labels_abort:
  "convert_pdf_to_excel env0 ''in/d.pdf'' ''out/d.xlsx'' dup_world =
     (False, dup_world\<lparr>logger := [(ERROR, ConversionFailed TypeError)]\<rparr>)"
  by (simp add: convert_defs sample_defs dup_world_def)

text \<open>
  Claim C2. For every PDF whose pages all yield the same table of one header row and
  \<open>M \<ge> 1\<close> data rows, the conversion should produce a table with one header row and
  \<open>N * M\<close> data rows. On the one-page document whose table is the header \<open>a, a\<close>
  and the data row \<open>1, 2\<close> (\<open>N = 1\<close>, \<open>M = 1\<close>) the frame of lines 73 to 76 is built
  with its one data row, but the coercion loop raises on the repeated label, the
  conversion returns \<open>False\<close> and nothing is written at the output path. The same
  environment and output directory convert a document with distinct header cells.
\<close>

theorem duplicate_header_writes_nothing:
  "files dup_world ''in/d.pdf'' = Some (Pdf [Yields (Some [[Some ''a'', Some ''a''], [Some ''1'', Some ''2'']])])
   \<and> (tabulate (fst (process_pages [Yields (Some [[Some ''a'', Some ''a''], [Some ''1'', Some ''2'']])] [] []))
        :: exn + nat frame)
       = Inr \<lparr>columns = [Name (Some ''a''), Name (Some ''a'')], nrows = 1,
              series = [[Obj (Some ''1'')], [Obj (Some ''2'')]]\<rparr>
   \<and> fst (convert_pdf_to_excel env0 ''in/d.pdf'' ''out/d.xlsx'' dup_world) = False
   \<and> files (snd (convert_pdf_to_excel env0 ''in/d.pdf'' ''out/d.xlsx'' dup_world)) ''out/d.xlsx'' = None
   \<and> logger (snd (convert_pdf_to_excel env0 ''in/d.pdf'' ''out/d.xlsx'' dup_world))
       = [(ERROR, ConversionFailed TypeError)]
   \<and> fst (convert_pdf_to_excel env0 ''in/a.pdf'' ''out/d.xlsx'' plain_world) = True"
  by (simp add: convert_defs sample_defs dup_world_def)

text \<open>
  Claim C3. The claim says that a column with a value that does not parse is written
  unchanged and that the failure is logged as a warning. On the one-page document whose
  table has a numeric column \<open>id\<close> and a textual column \<open>name\<close>, the conversion
  succeeds, \<open>id\<close> is written as numbers and \<open>name\<close> unchanged, but the log holds the
  success record only: \<open>to_numeric\<close> with \<open>errors="ignore"\<close> returns its input instead
  of raising, so the \<open>except ValueError\<close> branch with the warning is never entered.
\<close>

theorem unparsed_column_logs_nothing:
  "fst (convert_pdf_to_excel env0 ''in/a.pdf'' ''out/a.xlsx'' plain_world) = True
   \<and> files (snd (convert_pdf_to_excel env0 ''in/a.pdf'' ''out/a.xlsx'' plain_world)) ''out/a.xlsx''
       = Some (Sheet \<lparr>columns = [Name (Some ''id''), Name (Some ''name'')], nrows = 2,
           series = [[Number 1, Number 2], [Obj (Some ''x''), Obj (Some ''y'')]]\<rparr>)
   \<and> logger (snd (convert_pdf_to_excel env0 ''in/a.pdf'' ''out/a.xlsx'' plain_world))
       = [(INFO, ConvertedTo ''out/a.xlsx'')]"
  by (simp add: convert_defs sample_defs)

end
